theory Spec2Isabelle
  imports Complex_Main
begin

section \<open>Data model of ProxyPool\<close>

text \<open>
  Modelled from the spec: the exception classes \<open>UnknownProxy\<close>, \<open>ProxiesTimeout\<close>
  and \<open>NoValidProxies\<close> of the module \<open>ProxyExceptions\<close>, which the source imports
  and raises; they are distinct error kinds and none of them is Python's built-in
  \<open>KeyError\<close>, \<open>ValueError\<close> or \<open>IndexError\<close>.  The three built-in exceptions are
  the ones \<open>dict.pop\<close>, \<open>deque.remove\<close> and \<open>deque.popleft\<close> raise.
  \<open>CallbackError\<close> stands for whatever the replenishment callback raises.
\<close>

datatype error =
    UnknownProxy string
  | ProxiesTimeout real
  | NoValidProxies
  | KeyError string
  | ValueError
  | IndexError
  | CallbackError string

text \<open>Class \<open>ProxyData\<close>: the fields set by its \<open>__init__\<close>.  Time stamps are
  seconds, counters are Python integers.\<close>

record ProxyData =
  proxy_url :: string
  timeout :: real
  banned :: bool
  given_out_counter :: int
  timed_out_counter :: int
  used_counter :: int

definition ProxyData_init :: "string \<Rightarrow> ProxyData" where
  "ProxyData_init url =
     \<lparr>proxy_url = url, timeout = 0, banned = False, given_out_counter = 0,
      timed_out_counter = 0, used_counter = 0\<rparr>"

text \<open>\<open>ProxyData.give_timeout\<close>, \<open>use\<close>, \<open>ban\<close>, \<open>unban\<close>, \<open>is_valid\<close>, \<open>is_timeout\<close>;
  \<open>now\<close> is the value \<open>time.time()\<close> returns.\<close>

definition give_timeout :: "real \<Rightarrow> real \<Rightarrow> ProxyData \<Rightarrow> ProxyData" where
  "give_timeout now time_sec p =
     p\<lparr>timeout := now + time_sec, timed_out_counter := timed_out_counter p + 1\<rparr>"

definition use :: "real \<Rightarrow> real \<Rightarrow> ProxyData \<Rightarrow> ProxyData" where
  "use now use_timeout p =
     (let p1 = p\<lparr>used_counter := used_counter p + 1\<rparr>
      in if use_timeout > 0 then give_timeout now use_timeout p1 else p1)"

definition ban :: "ProxyData \<Rightarrow> ProxyData" where
  "ban p = p\<lparr>banned := True\<rparr>"

definition unban :: "ProxyData \<Rightarrow> ProxyData" where
  "unban p = p\<lparr>banned := False\<rparr>"

definition is_valid :: "real \<Rightarrow> bool \<Rightarrow> ProxyData \<Rightarrow> bool" where
  "is_valid now ignore_timeout p \<longleftrightarrow> \<not> banned p \<and> (ignore_timeout \<or> timeout p < now)"

definition is_timeout :: "real \<Rightarrow> ProxyData \<Rightarrow> bool" where
  "is_timeout now p \<longleftrightarrow> timeout p > now"

text \<open>Class \<open>ProxyPool\<close>: the configuration, the registry \<open>_proxy_dict\<close> and the
  queue \<open>_proxy_queue\<close> (front of the deque = head of the list).  The callback
  \<open>replenish_proxies_func\<close> is passed to \<open>get_proxy\<close> as an argument, since it is a
  function on the pool itself.\<close>

record ProxyPool =
  max_time_outs :: int
  max_uses :: int
  time_out_on_use :: real
  proxy_dict :: "string \<rightharpoonup> ProxyData"
  proxy_queue :: "string list"

type_synonym 'a result = "(error + 'a) \<times> ProxyPool"

type_synonym callback = "ProxyPool \<Rightarrow> unit result"

text \<open>\<open>ProxyPool.__init__\<close>: the registry is built by a dict comprehension, the queue
  is the deque of the list as given.\<close>

definition ProxyPool_init :: "string list \<Rightarrow> int \<Rightarrow> int \<Rightarrow> real \<Rightarrow> ProxyPool" where
  "ProxyPool_init proxy_list mto mu tou =
     \<lparr>max_time_outs = mto, max_uses = mu, time_out_on_use = tou,
      proxy_dict = map_of (map (\<lambda>a. (a, ProxyData_init a)) proxy_list),
      proxy_queue = proxy_list\<rparr>"

text \<open>\<open>_ProxyDict.__getitem__\<close> (and \<open>ProxyPool.__getitem__\<close>, which calls it).\<close>

definition getitem :: "ProxyPool \<Rightarrow> string \<Rightarrow> error + ProxyData" where
  "getitem pool item =
     (case proxy_dict pool item of
        None \<Rightarrow> Inl (UnknownProxy item)
      | Some d \<Rightarrow> Inr d)"

text \<open>\<open>dict.pop(key)\<close>, which \<open>_ProxyDict\<close> inherits unchanged from \<open>dict\<close>.\<close>

definition dict_pop :: "ProxyPool \<Rightarrow> string \<Rightarrow> ProxyData result" where
  "dict_pop pool k =
     (case proxy_dict pool k of
        None \<Rightarrow> (Inl (KeyError k), pool)
      | Some d \<Rightarrow> (Inr d, pool\<lparr>proxy_dict := (proxy_dict pool)(k := None)\<rparr>))"

text \<open>In-place mutation of the \<open>ProxyData\<close> object registered under a key.\<close>

definition modify :: "ProxyPool \<Rightarrow> string \<Rightarrow> (ProxyData \<Rightarrow> ProxyData) \<Rightarrow> ProxyPool" where
  "modify pool k f =
     (case proxy_dict pool k of
        None \<Rightarrow> pool
      | Some d \<Rightarrow> pool\<lparr>proxy_dict := (proxy_dict pool)(k \<mapsto> f d)\<rparr>)"

subsection \<open>The queue\<close>

text \<open>\<open>_ProxyQueue.remove\<close>: \<open>deque.remove\<close> deletes the first occurrence and raises
  \<open>ValueError\<close> when there is none.\<close>

definition queue_remove :: "ProxyPool \<Rightarrow> string \<Rightarrow> unit result" where
  "queue_remove pool item =
     (if item \<in> set (proxy_queue pool)
      then (Inr (), pool\<lparr>proxy_queue := remove1 item (proxy_queue pool)\<rparr>)
      else (Inl ValueError, pool))"

text \<open>\<open>_ProxyQueue.popleft\<close>.\<close>

definition popleft :: "ProxyPool \<Rightarrow> string result" where
  "popleft pool =
     (case proxy_queue pool of
        [] \<Rightarrow> (Inl IndexError, pool)
      | x # q \<Rightarrow> (Inr x, pool\<lparr>proxy_queue := q\<rparr>))"

text \<open>The \<open>for i, a in enumerate(self)\<close> loop of \<open>_ProxyQueue.put\<close>: the index at which
  the loop breaks, \<open>None\<close> when it runs to the end (the \<open>else\<close> branch), or the
  \<open>UnknownProxy\<close> that \<open>self.ProxyPoolLink[a]\<close> raises.\<close>

fun put_scan :: "ProxyPool \<Rightarrow> real \<Rightarrow> string list \<Rightarrow> nat \<Rightarrow> error + nat option" where
  "put_scan pool t [] i = Inr None"
| "put_scan pool t (a # q) i =
     (case getitem pool a of
        Inl e \<Rightarrow> Inl e
      | Inr pa \<Rightarrow> if t \<le> timeout pa then Inr (Some i) else put_scan pool t q (Suc i))"

text \<open>\<open>_ProxyQueue.put\<close>: the \<open>try: super().remove(...) except ValueError: pass\<close>, then
  the scan and the insertion.\<close>

definition put :: "ProxyPool \<Rightarrow> ProxyData \<Rightarrow> unit result" where
  "put pool proxy =
     (let q1 = remove1 (proxy_url proxy) (proxy_queue pool);
          pool1 = pool\<lparr>proxy_queue := q1\<rparr>
      in case put_scan pool1 (timeout proxy) q1 0 of
           Inl e \<Rightarrow> (Inl e, pool1)
         | Inr (Some i) \<Rightarrow>
             (Inr (), pool1\<lparr>proxy_queue :=
                (if i = 0 then proxy_url proxy # q1
                 else take i q1 @ proxy_url proxy # drop i q1)\<rparr>)
         | Inr None \<Rightarrow> (Inr (), pool1\<lparr>proxy_queue := q1 @ [proxy_url proxy]\<rparr>))"

subsection \<open>Pool operations\<close>

definition add_proxy :: "ProxyPool \<Rightarrow> string \<Rightarrow> unit result" where
  "add_proxy pool proxy =
     (let pool1 = pool\<lparr>proxy_dict := (proxy_dict pool)(proxy \<mapsto> ProxyData_init proxy)\<rparr>
      in case getitem pool1 proxy of
           Inl e \<Rightarrow> (Inl e, pool1)
         | Inr d \<Rightarrow> put pool1 d)"

definition remove_proxy :: "ProxyPool \<Rightarrow> string \<Rightarrow> unit result" where
  "remove_proxy pool proxy =
     (case dict_pop pool proxy of
        (Inl e, pool1) \<Rightarrow> (Inl e, pool1)
      | (Inr d, pool1) \<Rightarrow> queue_remove pool1 proxy)"

text \<open>\<open>proxy_valid_to_give\<close> on a \<open>ProxyData\<close> object.\<close>

definition proxy_valid_to_give :: "ProxyPool \<Rightarrow> real \<Rightarrow> ProxyData \<Rightarrow> bool \<Rightarrow> bool" where
  "proxy_valid_to_give pool now proxy ignore_timeout \<longleftrightarrow>
     (max_time_outs pool \<le> 0 \<or> timed_out_counter proxy < max_time_outs pool)
     \<and> (max_uses pool \<le> 0 \<or> used_counter proxy < max_uses pool)
     \<and> is_valid now ignore_timeout proxy"

text \<open>\<open>return_proxy\<close> called with an identifier (as \<open>get_proxy\<close> and \<open>Proxy.__del__\<close>
  call it).\<close>

definition return_proxy :: "real \<Rightarrow> ProxyPool \<Rightarrow> string \<Rightarrow> unit result" where
  "return_proxy now pool proxy =
     (case getitem pool proxy of
        Inl e \<Rightarrow> (Inl e, pool)
      | Inr d \<Rightarrow>
          (let d1 = d\<lparr>given_out_counter := given_out_counter d - 1\<rparr>;
               pool1 = pool\<lparr>proxy_dict := (proxy_dict pool)(proxy \<mapsto> d1)\<rparr>
           in if proxy_valid_to_give pool1 now d1 True then put pool1 d1
              else (Inr (), pool1)))"

definition use_proxy :: "real \<Rightarrow> ProxyPool \<Rightarrow> string \<Rightarrow> unit result" where
  "use_proxy now pool proxy =
     (case getitem pool proxy of
        Inl e \<Rightarrow> (Inl e, pool)
      | Inr d \<Rightarrow> (Inr (), modify pool proxy (use now (time_out_on_use pool))))"

definition timeout_proxy :: "real \<Rightarrow> ProxyPool \<Rightarrow> string \<Rightarrow> real \<Rightarrow> unit result" where
  "timeout_proxy now pool proxy time_sec =
     (case getitem pool proxy of
        Inl e \<Rightarrow> (Inl e, pool)
      | Inr d \<Rightarrow> (Inr (), modify pool proxy (give_timeout now time_sec)))"

definition ban_proxy :: "ProxyPool \<Rightarrow> string \<Rightarrow> unit result" where
  "ban_proxy pool proxy =
     (case getitem pool proxy of
        Inl e \<Rightarrow> (Inl e, pool)
      | Inr d \<Rightarrow> (Inr (), modify pool proxy ban))"

definition unban_proxy :: "ProxyPool \<Rightarrow> string \<Rightarrow> unit result" where
  "unban_proxy pool proxy =
     (case getitem pool proxy of
        Inl e \<Rightarrow> (Inl e, pool)
      | Inr d \<Rightarrow> (Inr (), modify pool proxy unban))"

text \<open>\<open>replenish_proxies\<close>: the callback runs on the pool; what it raises is raised
  again.  (The lock and the condition variable have no sequential effect.)\<close>

definition replenish_proxies :: "callback \<Rightarrow> ProxyPool \<Rightarrow> unit result" where
  "replenish_proxies f pool = f pool"

text \<open>The \<open>try\<close> block of \<open>get_proxy\<close>.  \<open>now\<close> is the one clock reading of
  \<open>is_timeout\<close>.\<close>

definition get_proxy_try :: "real \<Rightarrow> ProxyPool \<Rightarrow> string option \<Rightarrow> string result" where
  "get_proxy_try now pool prev_proxy =
     (case popleft pool of
        (Inl e, pool1) \<Rightarrow> (Inl e, pool1)
      | (Inr proxy_str, pool1) \<Rightarrow>
          (case getitem pool1 proxy_str of
             Inl e \<Rightarrow> (Inl e, pool1)
           | Inr prox_data \<Rightarrow>
               if is_timeout now prox_data then
                 (case put pool1 prox_data of
                    (Inl e, pool2) \<Rightarrow> (Inl e, pool2)
                  | (Inr u, pool2) \<Rightarrow> (Inl (ProxiesTimeout (timeout prox_data)), pool2))
               else
                 (case (case prev_proxy of
                          None \<Rightarrow> (Inr (), pool1)
                        | Some pv \<Rightarrow> return_proxy now pool1 pv) of
                    (Inl e, pool2) \<Rightarrow> (Inl e, pool2)
                  | (Inr u, pool2) \<Rightarrow>
                      (Inr proxy_str,
                       modify pool2 proxy_str
                         (\<lambda>d. d\<lparr>given_out_counter := given_out_counter d + 1\<rparr>)))))"

text \<open>\<open>get_proxy\<close>: the \<open>except IndexError\<close> handler around the \<open>try\<close> block, with
  the recursive call under \<open>_replenish = False\<close>.  The wait on the condition variable
  at entry returns at once in a sequential run, where no replenishment is in flight.\<close>

function get_proxy ::
  "real \<Rightarrow> callback option \<Rightarrow> ProxyPool \<Rightarrow> string option \<Rightarrow> bool \<Rightarrow> string result" where
  "get_proxy now replenish_proxies_func pool prev_proxy replenish =
     (case get_proxy_try now pool prev_proxy of
        (Inl IndexError, pool1) \<Rightarrow>
          (if replenish_proxies_func \<noteq> None \<and> replenish then
             (case replenish_proxies (the replenish_proxies_func) pool1 of
                (Inl e, pool2) \<Rightarrow> (Inl e, pool2)
              | (Inr u, pool2) \<Rightarrow> get_proxy now replenish_proxies_func pool2 prev_proxy False)
           else (Inl NoValidProxies, pool1))
      | r \<Rightarrow> r)"
  by pat_completeness auto
termination
  by (relation "measure (\<lambda>(now, f, pool, prev, r). if r then 1 else 0)") auto

subsection \<open>The handle\<close>

text \<open>Class \<open>Proxy\<close>: the handle holds the assigned identifier.  \<open>Proxy.__init__\<close>,
  \<open>ProxyPool.Proxy\<close> and \<open>Proxy.__del__\<close>.\<close>

record Proxy =
  assigned_proxy :: "string option"

definition Proxy_init ::
  "real \<Rightarrow> callback option \<Rightarrow> ProxyPool \<Rightarrow> string option \<Rightarrow> Proxy result" where
  "Proxy_init now f pool proxy =
     (case proxy of
        None \<Rightarrow>
          (case get_proxy now f pool None True of
             (Inl e, pool1) \<Rightarrow> (Inl e, pool1)
           | (Inr p, pool1) \<Rightarrow> (Inr \<lparr>assigned_proxy = Some p\<rparr>, pool1))
      | Some p \<Rightarrow> (Inr \<lparr>assigned_proxy = Some p\<rparr>, pool))"

definition pool_Proxy ::
  "real \<Rightarrow> callback option \<Rightarrow> ProxyPool \<Rightarrow> string option \<Rightarrow> Proxy result" where
  "pool_Proxy now f pool proxy =
     (case (case proxy of
              None \<Rightarrow> (Inr (), pool)
            | Some p \<Rightarrow> if proxy_dict pool p = None then add_proxy pool p else (Inr (), pool)) of
        (Inl e, pool1) \<Rightarrow> (Inl e, pool1)
      | (Inr u, pool1) \<Rightarrow> Proxy_init now f pool1 proxy)"

definition Proxy_del :: "real \<Rightarrow> ProxyPool \<Rightarrow> Proxy \<Rightarrow> unit result" where
  "Proxy_del now pool h =
     (case assigned_proxy h of
        None \<Rightarrow> (Inr (), pool)
      | Some p \<Rightarrow> return_proxy now pool p)"

subsection \<open>The insertion position, in the words of the specification\<close>

text \<open>An entry qualifies when it has a registered state whose \<open>timeout\<close> is at least
  the new entry's.  \<open>put_spec\<close> is the queue the specification describes: the first
  occurrence of the identifier removed, the identifier inserted before the first
  qualifying entry, at the end when there is none.\<close>

definition qualifies :: "ProxyPool \<Rightarrow> real \<Rightarrow> string \<Rightarrow> bool" where
  "qualifies pool t a =
     (case proxy_dict pool a of None \<Rightarrow> False | Some d \<Rightarrow> t \<le> timeout d)"

definition put_spec :: "ProxyPool \<Rightarrow> ProxyData \<Rightarrow> string list" where
  "put_spec pool proxy =
     (let q1 = remove1 (proxy_url proxy) (proxy_queue pool)
      in takeWhile (\<lambda>a. \<not> qualifies pool (timeout proxy) a) q1
         @ proxy_url proxy
         # dropWhile (\<lambda>a. \<not> qualifies pool (timeout proxy) a) q1)"

text \<open>The eligibility rule of the release protocol: not banned and under both
  ceilings, the cooldown ignored.\<close>

definition eligible :: "ProxyPool \<Rightarrow> ProxyData \<Rightarrow> bool" where
  "eligible pool d \<longleftrightarrow>
     \<not> banned d
     \<and> (max_uses pool \<le> 0 \<or> used_counter d < max_uses pool)
     \<and> (max_time_outs pool \<le> 0 \<or> timed_out_counter d < max_time_outs pool)"

section \<open>Properties\<close>

declare get_proxy.simps [simp del]

lemma ProxyData_init_fields [simp]:
  "proxy_url (ProxyData_init u) = u"
  "timeout (ProxyData_init u) = 0"
  "banned (ProxyData_init u) = False"
  "given_out_counter (ProxyData_init u) = 0"
  "timed_out_counter (ProxyData_init u) = 0"
  "used_counter (ProxyData_init u) = 0"
  by (simp_all add: ProxyData_init_def)

lemma getitem_None: "proxy_dict pool k = None \<Longrightarrow> getitem pool k = Inl (UnknownProxy k)"
  by (simp add: getitem_def)

lemma getitem_Some: "proxy_dict pool k = Some d \<Longrightarrow> getitem pool k = Inr d"
  by (simp add: getitem_def)

subsection \<open>The scan of \<open>put\<close> on a queue of registered identifiers\<close>

lemma put_scan_queue_irrelevant:
  "put_scan (pool\<lparr>proxy_queue := x\<rparr>) t q i = put_scan pool t q i"
  by (induction q arbitrary: i) (simp_all add: getitem_def split: option.splits)

lemma put_scan_registered:
  "set q \<subseteq> dom (proxy_dict pool) \<Longrightarrow>
   put_scan pool t q i =
     Inr (if \<exists>a\<in>set q. qualifies pool t a
          then Some (i + length (takeWhile (\<lambda>a. \<not> qualifies pool t a) q))
          else None)"
proof (induction q arbitrary: i)
  case Nil
  show ?case by simp
next
  case (Cons a q)
  from Cons.prems obtain d where d: "proxy_dict pool a = Some d" by auto
  from Cons.prems have sub: "set q \<subseteq> dom (proxy_dict pool)" by simp
  show ?case
  proof (cases "t \<le> timeout d")
    case True
    with d show ?thesis by (simp add: getitem_def qualifies_def)
  next
    case False
    with d have nq: "\<not> qualifies pool t a" by (simp add: qualifies_def)
    from d False have "put_scan pool t (a # q) i = put_scan pool t q (Suc i)"
      by (simp add: getitem_def)
    with Cons.IH [OF sub, of "Suc i"] nq show ?thesis by simp
  qed
qed

lemma qualifies_queue_irrelevant:
  "qualifies (pool\<lparr>proxy_queue := x\<rparr>) t a = qualifies pool t a"
  by (simp add: qualifies_def)

lemma insert_at_takeWhile:
  "take (length (takeWhile P xs)) xs @ u # drop (length (takeWhile P xs)) xs
     = takeWhile P xs @ u # dropWhile P xs"
  by (simp add: takeWhile_eq_take [symmetric] dropWhile_eq_drop [symmetric])

lemma put_registered:
  assumes "set (remove1 (proxy_url p) (proxy_queue pool)) \<subseteq> dom (proxy_dict pool)"
  shows "put pool p = (Inr (), pool\<lparr>proxy_queue := put_spec pool p\<rparr>)"
proof -
  let ?u = "proxy_url p"
  let ?q1 = "remove1 (proxy_url p) (proxy_queue pool)"
  let ?P = "\<lambda>a. \<not> qualifies pool (timeout p) a"
  have scan: "put_scan (pool\<lparr>proxy_queue := ?q1\<rparr>) (timeout p) ?q1 0 =
      Inr (if \<exists>a\<in>set ?q1. qualifies pool (timeout p) a
           then Some (length (takeWhile ?P ?q1)) else None)"
    using put_scan_registered [OF assms, of "timeout p" 0]
    by (simp add: put_scan_queue_irrelevant)
  have spec: "put_spec pool p = takeWhile ?P ?q1 @ ?u # dropWhile ?P ?q1"
    by (simp add: put_spec_def Let_def)
  show ?thesis
  proof (cases "\<exists>a\<in>set ?q1. qualifies pool (timeout p) a")
    case True
    show ?thesis
    proof (cases "length (takeWhile ?P ?q1) = 0")
      case z: True
      then have tw: "takeWhile ?P ?q1 = []" by simp
      have "takeWhile ?P ?q1 @ dropWhile ?P ?q1 = ?q1" by (rule takeWhile_dropWhile_id)
      then have dw: "dropWhile ?P ?q1 = ?q1" unfolding tw by simp
      have "put pool p = (Inr (), pool\<lparr>proxy_queue := ?u # ?q1\<rparr>)"
        using True z scan by (simp add: put_def Let_def)
      moreover have "put_spec pool p = ?u # ?q1"
        unfolding spec tw dw by simp
      ultimately show ?thesis by simp
    next
      case nz: False
      have "put pool p = (Inr (), pool\<lparr>proxy_queue :=
          take (length (takeWhile ?P ?q1)) ?q1 @ ?u # drop (length (takeWhile ?P ?q1)) ?q1\<rparr>)"
        using True nz scan by (simp add: put_def Let_def)
      then show ?thesis
        unfolding spec insert_at_takeWhile .
    qed
  next
    case False
    then have "\<forall>a\<in>set ?q1. ?P a" by blast
    then have tw: "takeWhile ?P ?q1 = ?q1" and dw: "dropWhile ?P ?q1 = []"
      by simp_all
    have "put pool p = (Inr (), pool\<lparr>proxy_queue := ?q1 @ [?u]\<rparr>)"
      using False scan by (simp add: put_def Let_def)
    moreover have "put_spec pool p = ?q1 @ [?u]"
      unfolding spec tw dw by simp
    ultimately show ?thesis by simp
  qed
qed

lemma insert_set_remove1: "insert u (set (remove1 u q)) = insert u (set q)"
proof -
  have "x \<in> insert u (set (remove1 u q)) \<longleftrightarrow> x \<in> insert u (set q)" for x
    by (cases "x = u") simp_all
  then show ?thesis by blast
qed

lemma set_put_spec:
  "set (put_spec pool p) = insert (proxy_url p) (set (proxy_queue pool))"
proof -
  let ?q1 = "remove1 (proxy_url p) (proxy_queue pool)"
  let ?P = "\<lambda>a. \<not> qualifies pool (timeout p) a"
  have "set (takeWhile ?P ?q1) \<union> set (dropWhile ?P ?q1) = set ?q1"
    by (metis set_append takeWhile_dropWhile_id)
  then have "set (put_spec pool p) = insert (proxy_url p) (set ?q1)"
    by (simp add: put_spec_def Let_def)
  then show ?thesis by (simp add: insert_set_remove1)
qed

lemma distinct_put_spec:
  assumes "distinct (proxy_queue pool)"
  shows "distinct (put_spec pool p)"
proof -
  let ?q1 = "remove1 (proxy_url p) (proxy_queue pool)"
  let ?P = "\<lambda>a. \<not> qualifies pool (timeout p) a"
  from assms have d1: "distinct ?q1" and notin: "proxy_url p \<notin> set ?q1"
    by simp_all
  have un: "set (takeWhile ?P ?q1) \<union> set (dropWhile ?P ?q1) = set ?q1"
    by (metis set_append takeWhile_dropWhile_id)
  from d1 have "distinct (takeWhile ?P ?q1 @ dropWhile ?P ?q1)" by simp
  then have dd: "distinct (takeWhile ?P ?q1) \<and> distinct (dropWhile ?P ?q1)
      \<and> set (takeWhile ?P ?q1) \<inter> set (dropWhile ?P ?q1) = {}"
    by (simp only: distinct_append)
  from notin un have "proxy_url p \<notin> set (takeWhile ?P ?q1)" "proxy_url p \<notin> set (dropWhile ?P ?q1)"
    by blast+
  with dd show ?thesis
    by (simp add: put_spec_def Let_def)
qed

subsection \<open>Which errors the \<open>try\<close> block of \<open>get_proxy\<close> can raise\<close>

lemma put_scan_error: "put_scan pool t q i = Inl e \<Longrightarrow> e \<noteq> IndexError"
  by (induction q arbitrary: i) (auto simp: getitem_def split: option.splits if_splits)

lemma put_error: "fst (put pool p) \<noteq> Inl IndexError"
  by (auto simp: put_def Let_def split: sum.splits option.splits dest: put_scan_error)

lemma return_proxy_error: "fst (return_proxy now pool p) \<noteq> Inl IndexError"
  using put_error
  by (auto simp: return_proxy_def Let_def getitem_def split: option.splits)

lemma get_proxy_try_empty:
  "proxy_queue pool = [] \<Longrightarrow> get_proxy_try now pool prev = (Inl IndexError, pool)"
  by (simp add: get_proxy_try_def popleft_def)

lemma get_proxy_try_nonempty:
  assumes "proxy_queue pool \<noteq> []"
  shows "fst (get_proxy_try now pool prev) \<noteq> Inl IndexError"
proof -
  from assms obtain a q where q: "proxy_queue pool = a # q" by (cases "proxy_queue pool") auto
  let ?pool1 = "pool\<lparr>proxy_queue := q\<rparr>"
  show ?thesis
  proof (cases "proxy_dict pool a")
    case None
    with q show ?thesis by (simp add: get_proxy_try_def popleft_def getitem_def)
  next
    case (Some d)
    show ?thesis
    proof (cases "is_timeout now d")
      case True
      obtain x p2 where p: "put ?pool1 d = (x, p2)" by (cases "put ?pool1 d")
      with put_error [of ?pool1 d] have "x \<noteq> Inl IndexError" by simp
      with q Some True p show ?thesis
        by (cases x) (simp_all add: get_proxy_try_def popleft_def getitem_def)
    next
      case False
      show ?thesis
      proof (cases prev)
        case None
        with q Some False show ?thesis
          by (simp add: get_proxy_try_def popleft_def getitem_def)
      next
        case (Some pv)
        obtain x p2 where p: "return_proxy now ?pool1 pv = (x, p2)"
          by (cases "return_proxy now ?pool1 pv")
        with return_proxy_error [of now ?pool1 pv] have "x \<noteq> Inl IndexError" by simp
        with q \<open>proxy_dict pool a = Some d\<close> False Some p show ?thesis
          by (cases x) (simp_all add: get_proxy_try_def popleft_def getitem_def)
      qed
    qed
  qed
qed

lemma get_proxy_no_replenish:
  "get_proxy now f pool prev False =
     (if proxy_queue pool = [] then (Inl NoValidProxies, pool) else get_proxy_try now pool prev)"
proof (cases "proxy_queue pool = []")
  case True
  then show ?thesis by (simp add: get_proxy.simps get_proxy_try_empty)
next
  case False
  obtain x p1 where r: "get_proxy_try now pool prev = (x, p1)"
    by (cases "get_proxy_try now pool prev")
  with get_proxy_try_nonempty [OF False, of now prev] have "x \<noteq> Inl IndexError" by simp
  with False r show ?thesis
    by (simp add: get_proxy.simps split: sum.splits error.splits)
qed

lemma proxy_valid_to_give_ignoring_timeout:
  "proxy_valid_to_give pool now d True = eligible pool d"
  by (auto simp: proxy_valid_to_give_def eligible_def is_valid_def)

section \<open>Claims\<close>

text \<open>
  C5.  A call of \<open>get_proxy\<close> (with the default \<open>_replenish = True\<close>) that finds the
  queue empty: without a callback it fails with \<open>NoValidProxies\<close> and leaves the pool
  as it is.  With a callback \<open>f\<close>, the callback runs once, on the pool as it is; what
  it raises is raised by the call; when it returns, the \<open>try\<close> block runs once more on
  the pool the callback left, and an empty queue there gives \<open>NoValidProxies\<close>.  The
  callback occurs nowhere else in the result: there is no second replenishment.
\<close>

theorem get_proxy_empty_queue:
  assumes "proxy_queue pool = []"
  shows "get_proxy now None pool prev True = (Inl NoValidProxies, pool)
       \<and> get_proxy now (Some f) pool prev True =
           (case f pool of
              (Inl e, pool') \<Rightarrow> (Inl e, pool')
            | (Inr u, pool') \<Rightarrow>
                if proxy_queue pool' = [] then (Inl NoValidProxies, pool')
                else get_proxy_try now pool' prev)"
proof
  from assms show "get_proxy now None pool prev True = (Inl NoValidProxies, pool)"
    by (simp add: get_proxy.simps get_proxy_try_empty)
next
  from assms have "get_proxy now (Some f) pool prev True =
      (case f pool of
         (Inl e, pool') \<Rightarrow> (Inl e, pool')
       | (Inr u, pool') \<Rightarrow> get_proxy now (Some f) pool' prev False)"
    by (subst get_proxy.simps) (simp add: get_proxy_try_empty replenish_proxies_def)
  then show "get_proxy now (Some f) pool prev True =
           (case f pool of
              (Inl e, pool') \<Rightarrow> (Inl e, pool')
            | (Inr u, pool') \<Rightarrow>
                if proxy_queue pool' = [] then (Inl NoValidProxies, pool')
                else get_proxy_try now pool' prev)"
    by (simp add: get_proxy_no_replenish split: prod.splits sum.splits)
qed

theorem get_proxy_empty_queue_witness:
  "proxy_queue (ProxyPool_init [] 0 0 0) = []
   \<and> get_proxy 1 None (ProxyPool_init [] 0 0 0) None True
       = (Inl NoValidProxies, ProxyPool_init [] 0 0 0)
   \<and> fst (get_proxy 1 (Some (\<lambda>pool. add_proxy pool ''c'')) (ProxyPool_init [] 0 0 0) None True)
       = Inr ''c''
   \<and> get_proxy 1 (Some (\<lambda>pool. (Inr (), pool))) (ProxyPool_init [] 0 0 0) None True
       = (Inl NoValidProxies, ProxyPool_init [] 0 0 0)"
proof -
  have h: "proxy_queue (ProxyPool_init [] 0 0 0) = []"
    by (simp add: ProxyPool_init_def)
  have first: "add_proxy (ProxyPool_init [] 0 0 0) ''c'' =
      (Inr (), (ProxyPool_init [] 0 0 0)
         \<lparr>proxy_dict := [''c'' \<mapsto> ProxyData_init ''c''], proxy_queue := [''c'']\<rparr>)"
    by (simp add: add_proxy_def put_def getitem_def ProxyPool_init_def Let_def)
  have second: "fst (get_proxy_try 1 ((ProxyPool_init [] 0 0 0)
         \<lparr>proxy_dict := [''c'' \<mapsto> ProxyData_init ''c''], proxy_queue := [''c'']\<rparr>) None) = Inr ''c''"
    by (simp add: get_proxy_try_def popleft_def getitem_def is_timeout_def modify_def)
  show ?thesis
    using h get_proxy_empty_queue [OF h, of 1 None "\<lambda>pool. add_proxy pool ''c''"]
      get_proxy_empty_queue [OF h, of 1 None "\<lambda>pool. (Inr (), pool)"] first second
    by simp
qed

text \<open>
  C4 (amended).  On a queue whose entries are all registered, \<open>put\<close> succeeds and the
  new queue is \<open>put_spec\<close>: the first occurrence of the identifier removed, the
  identifier inserted before the first entry whose \<open>timeout\<close> is at least its own, at
  the end when there is none.  The identifier is in the queue afterwards, and a queue
  that held no identifier twice before the \<open>put\<close> holds none twice after it.
\<close>

theorem put_inserts_before_first_qualifying:
  assumes "set (proxy_queue pool) \<subseteq> dom (proxy_dict pool)"
  shows "put pool p = (Inr (), pool\<lparr>proxy_queue := put_spec pool p\<rparr>)
       \<and> proxy_url p \<in> set (proxy_queue (snd (put pool p)))
       \<and> (distinct (proxy_queue pool) \<longrightarrow> distinct (proxy_queue (snd (put pool p))))"
proof -
  have "set (remove1 (proxy_url p) (proxy_queue pool)) \<subseteq> set (proxy_queue pool)"
    by (rule set_remove1_subset)
  with assms have "set (remove1 (proxy_url p) (proxy_queue pool)) \<subseteq> dom (proxy_dict pool)"
    by blast
  then have eq: "put pool p = (Inr (), pool\<lparr>proxy_queue := put_spec pool p\<rparr>)"
    by (rule put_registered)
  then show ?thesis
    by (simp add: set_put_spec distinct_put_spec)
qed

theorem put_inserts_before_first_qualifying_witness:
  "set [''c'', ''a'', ''b''] \<subseteq>
     dom [''a'' \<mapsto> ProxyData_init ''a'', ''b'' \<mapsto> (ProxyData_init ''b'')\<lparr>timeout := 5\<rparr>,
          ''c'' \<mapsto> (ProxyData_init ''c'')\<lparr>timeout := 3\<rparr>]
   \<and> put \<lparr>max_time_outs = 0, max_uses = 0, time_out_on_use = 0,
           proxy_dict = [''a'' \<mapsto> ProxyData_init ''a'',
                         ''b'' \<mapsto> (ProxyData_init ''b'')\<lparr>timeout := 5\<rparr>,
                         ''c'' \<mapsto> (ProxyData_init ''c'')\<lparr>timeout := 3\<rparr>],
           proxy_queue = [''c'', ''a'', ''b'']\<rparr>
          ((ProxyData_init ''c'')\<lparr>timeout := 3\<rparr>)
     = (Inr (), \<lparr>max_time_outs = 0, max_uses = 0, time_out_on_use = 0,
           proxy_dict = [''a'' \<mapsto> ProxyData_init ''a'',
                         ''b'' \<mapsto> (ProxyData_init ''b'')\<lparr>timeout := 5\<rparr>,
                         ''c'' \<mapsto> (ProxyData_init ''c'')\<lparr>timeout := 3\<rparr>],
           proxy_queue = [''a'', ''c'', ''b'']\<rparr>)"
proof -
  let ?pool = "\<lparr>max_time_outs = 0, max_uses = 0, time_out_on_use = 0,
           proxy_dict = [''a'' \<mapsto> ProxyData_init ''a'',
                         ''b'' \<mapsto> (ProxyData_init ''b'')\<lparr>timeout := 5\<rparr>,
                         ''c'' \<mapsto> (ProxyData_init ''c'')\<lparr>timeout := 3\<rparr>],
           proxy_queue = [''c'', ''a'', ''b'']\<rparr>"
  have h: "set (proxy_queue ?pool) \<subseteq> dom (proxy_dict ?pool)" by simp
  show ?thesis
    using h put_inserts_before_first_qualifying [OF h, of "(ProxyData_init ''c'')\<lparr>timeout := 3\<rparr>"]
    by (simp add: put_spec_def qualifies_def)
qed

text \<open>
  C4 as stated fails on two queue states the constructor and \<open>remove_proxy\<close> produce.
  Built from \<open>["a", "a"]\<close> the queue holds \<open>a\<close> twice, \<open>put\<close> removes one
  occurrence and inserts one, and \<open>a\<close> still occurs twice.  Built from
  \<open>["a", "b", "b"]\<close>, after \<open>remove_proxy("b")\<close> the queue still holds one \<open>b\<close>
  that the registry no longer knows; \<open>put\<close> of \<open>a\<close> removes \<open>a\<close>, reaches \<open>b\<close> in
  its scan and raises \<open>UnknownProxy\<close> without inserting.
\<close>

theorem put_counterexample:
  "\<not> distinct (proxy_queue (snd (put (ProxyPool_init [''a'', ''a''] 0 0 0) (ProxyData_init ''a''))))
   \<and> fst (put (snd (remove_proxy (ProxyPool_init [''a'', ''b'', ''b''] 0 0 0) ''b''))
             (ProxyData_init ''a'')) = Inl (UnknownProxy ''b'')
   \<and> proxy_queue (snd (put (snd (remove_proxy (ProxyPool_init [''a'', ''b'', ''b''] 0 0 0) ''b''))
             (ProxyData_init ''a''))) = [''b'']"
  by (simp add: put_def ProxyPool_init_def getitem_def remove_proxy_def dict_pop_def
        queue_remove_def Let_def)

text \<open>
  C6 (amended).  \<open>get_proxy\<close> on a pool whose front entry \<open>a\<close> is registered and still
  in cooldown (\<open>now < timeout\<close>), the other queued identifiers being registered too:
  the call fails with \<open>ProxiesTimeout\<close> carrying the \<open>timeout\<close> of \<open>a\<close>; the pool
  afterwards differs from the pool before in the queue only (no counter changed,
  \<open>prev_proxy\<close> not released, the callback not run), \<open>a\<close> is back in the queue at
  the position \<open>put\<close> gives it, and the set of queued identifiers is the same.
  (\<open>proxy_url d = a\<close> holds of every registry the source builds: under a key it
  stores the \<open>ProxyData\<close> created for that key.)
\<close>

theorem get_proxy_front_in_cooldown:
  assumes "proxy_queue pool = a # q"
    and "proxy_dict pool a = Some d" and "proxy_url d = a"
    and "now < timeout d"
    and "set q \<subseteq> dom (proxy_dict pool)"
  shows "get_proxy now f pool prev r =
           (Inl (ProxiesTimeout (timeout d)),
            pool\<lparr>proxy_queue := put_spec (pool\<lparr>proxy_queue := q\<rparr>) d\<rparr>)
       \<and> set (put_spec (pool\<lparr>proxy_queue := q\<rparr>) d) = set (proxy_queue pool)"
proof -
  let ?pool1 = "pool\<lparr>proxy_queue := q\<rparr>"
  have "set (remove1 (proxy_url d) (proxy_queue ?pool1)) \<subseteq> set q"
    using set_remove1_subset [of "proxy_url d" q] by simp
  with assms(5) have "set (remove1 (proxy_url d) (proxy_queue ?pool1)) \<subseteq> dom (proxy_dict ?pool1)"
    by auto
  then have p: "put ?pool1 d = (Inr (), ?pool1\<lparr>proxy_queue := put_spec ?pool1 d\<rparr>)"
    by (rule put_registered)
  from assms(1,2,4) p have t: "get_proxy_try now pool prev =
      (Inl (ProxiesTimeout (timeout d)), pool\<lparr>proxy_queue := put_spec ?pool1 d\<rparr>)"
    by (simp add: get_proxy_try_def popleft_def getitem_def is_timeout_def)
  have "get_proxy now f pool prev r =
      (Inl (ProxiesTimeout (timeout d)), pool\<lparr>proxy_queue := put_spec ?pool1 d\<rparr>)"
    by (subst get_proxy.simps) (simp add: t)
  moreover from assms(1,3) have "set (put_spec ?pool1 d) = set (proxy_queue pool)"
    by (simp add: set_put_spec)
  ultimately show ?thesis by simp
qed

theorem get_proxy_front_in_cooldown_witness:
  "get_proxy 50 None
     \<lparr>max_time_outs = 0, max_uses = 0, time_out_on_use = 0,
      proxy_dict = [''a'' \<mapsto> (ProxyData_init ''a'')\<lparr>timeout := 100\<rparr>,
                    ''b'' \<mapsto> (ProxyData_init ''b'')\<lparr>timeout := 200\<rparr>],
      proxy_queue = [''a'', ''b'']\<rparr> (Some ''b'') True
   = (Inl (ProxiesTimeout 100),
      \<lparr>max_time_outs = 0, max_uses = 0, time_out_on_use = 0,
       proxy_dict = [''a'' \<mapsto> (ProxyData_init ''a'')\<lparr>timeout := 100\<rparr>,
                     ''b'' \<mapsto> (ProxyData_init ''b'')\<lparr>timeout := 200\<rparr>],
       proxy_queue = [''a'', ''b'']\<rparr>)"
proof -
  let ?pool = "\<lparr>max_time_outs = 0, max_uses = 0, time_out_on_use = 0,
      proxy_dict = [''a'' \<mapsto> (ProxyData_init ''a'')\<lparr>timeout := 100\<rparr>,
                    ''b'' \<mapsto> (ProxyData_init ''b'')\<lparr>timeout := 200\<rparr>],
      proxy_queue = [''a'', ''b'']\<rparr>"
  let ?d = "(ProxyData_init ''a'')\<lparr>timeout := 100\<rparr>"
  have h1: "proxy_queue ?pool = ''a'' # [''b'']" by simp
  have h2: "proxy_dict ?pool ''a'' = Some ?d" by simp
  have h3: "proxy_url ?d = ''a''" by simp
  have h4: "50 < timeout ?d" by simp
  have h5: "set [''b''] \<subseteq> dom (proxy_dict ?pool)" by simp
  show ?thesis
    using get_proxy_front_in_cooldown [OF h1 h2 h3 h4 h5, of None "Some ''b''" True]
    by (simp add: put_spec_def qualifies_def)
qed

text \<open>
  C6 as stated fails when the queue holds an identifier the registry does not know.
  The pool is built from \<open>["a", "b", "b"]\<close>; \<open>remove_proxy("b")\<close> leaves one \<open>b\<close>
  in the queue, \<open>timeout_proxy("a", 100)\<close> at time 0 puts \<open>a\<close> in cooldown.
  \<open>get_proxy\<close> at time 0 pops \<open>a\<close>, and the \<open>put\<close> that should re-insert it
  raises \<open>UnknownProxy\<close> at \<open>b\<close>: the call does not fail with \<open>ProxiesTimeout\<close>,
  and \<open>a\<close> has left the queue.
\<close>

theorem get_proxy_cooldown_counterexample:
  "proxy_queue (snd (timeout_proxy 0
       (snd (remove_proxy (ProxyPool_init [''a'', ''b'', ''b''] 0 0 0) ''b'')) ''a'' 100))
     = [''a'', ''b'']
   \<and> map_option timeout (proxy_dict (snd (timeout_proxy 0
       (snd (remove_proxy (ProxyPool_init [''a'', ''b'', ''b''] 0 0 0) ''b'')) ''a'' 100)) ''a'')
     = Some 100
   \<and> fst (get_proxy 0 None (snd (timeout_proxy 0
       (snd (remove_proxy (ProxyPool_init [''a'', ''b'', ''b''] 0 0 0) ''b'')) ''a'' 100)) None True)
     = Inl (UnknownProxy ''b'')
   \<and> proxy_queue (snd (get_proxy 0 None (snd (timeout_proxy 0
       (snd (remove_proxy (ProxyPool_init [''a'', ''b'', ''b''] 0 0 0) ''b'')) ''a'' 100)) None True))
     = [''b'']"
  by (simp add: get_proxy.simps get_proxy_try_def popleft_def put_def getitem_def
        timeout_proxy_def modify_def give_timeout_def remove_proxy_def dict_pop_def
        queue_remove_def ProxyPool_init_def is_timeout_def Let_def)

text \<open>
  C7 (amended).  \<open>return_proxy\<close> of a registered identifier, on a pool whose queued
  identifiers are all registered: the call returns normally, the endpoint's
  \<open>given_out_counter\<close> is one less, and nothing else in the registry changes.  When
  the endpoint is eligible (not banned and under both ceilings; neither its
  \<open>timeout\<close> nor the clock is looked at) it is put into the queue, at the position
  \<open>put\<close> gives it; when it is not eligible the queue is left as it was.
  (\<open>proxy_url d = p\<close> holds of every registry the source builds: under a key it
  stores the \<open>ProxyData\<close> created for that key.)
\<close>

theorem return_proxy_requeues_iff_eligible:
  assumes "proxy_dict pool p = Some d" and "proxy_url d = p"
    and "set (proxy_queue pool) \<subseteq> dom (proxy_dict pool)"
  shows "(let d1 = d\<lparr>given_out_counter := given_out_counter d - 1\<rparr>;
              pool1 = pool\<lparr>proxy_dict := (proxy_dict pool)(p \<mapsto> d1)\<rparr>
          in return_proxy now pool p =
               (Inr (), if eligible pool d then pool1\<lparr>proxy_queue := put_spec pool1 d1\<rparr>
                        else pool1)
             \<and> (eligible pool d \<longrightarrow> p \<in> set (put_spec pool1 d1)))"
proof -
  let ?d1 = "d\<lparr>given_out_counter := given_out_counter d - 1\<rparr>"
  let ?pool1 = "pool\<lparr>proxy_dict := (proxy_dict pool)(p \<mapsto> ?d1)\<rparr>"
  have el: "eligible ?pool1 ?d1 = eligible pool d"
    by (simp add: eligible_def)
  have "set (remove1 (proxy_url ?d1) (proxy_queue ?pool1)) \<subseteq> set (proxy_queue pool)"
    using set_remove1_subset [of "proxy_url ?d1" "proxy_queue pool"] by simp
  with assms(3) have "set (remove1 (proxy_url ?d1) (proxy_queue ?pool1)) \<subseteq> dom (proxy_dict ?pool1)"
    by auto
  then have p: "put ?pool1 ?d1 = (Inr (), ?pool1\<lparr>proxy_queue := put_spec ?pool1 ?d1\<rparr>)"
    by (rule put_registered)
  from assms(1) have r: "return_proxy now pool p =
      (Inr (), if eligible pool d then ?pool1\<lparr>proxy_queue := put_spec ?pool1 ?d1\<rparr> else ?pool1)"
    by (simp add: return_proxy_def getitem_def Let_def proxy_valid_to_give_ignoring_timeout el p)
  from assms(2) have "p \<in> set (put_spec ?pool1 ?d1)"
    by (simp add: set_put_spec)
  with r show ?thesis by (simp add: Let_def)
qed

theorem return_proxy_requeues_iff_eligible_witness:
  "return_proxy 50
     \<lparr>max_time_outs = 0, max_uses = 0, time_out_on_use = 0,
      proxy_dict = [''a'' \<mapsto> (ProxyData_init ''a'')\<lparr>timeout := 100, given_out_counter := 1\<rparr>,
                    ''b'' \<mapsto> ProxyData_init ''b''],
      proxy_queue = [''b'']\<rparr> ''a''
   = (Inr (),
      \<lparr>max_time_outs = 0, max_uses = 0, time_out_on_use = 0,
       proxy_dict = [''a'' \<mapsto> (ProxyData_init ''a'')\<lparr>timeout := 100, given_out_counter := 1\<rparr>,
                     ''b'' \<mapsto> ProxyData_init ''b'',
                     ''a'' \<mapsto> (ProxyData_init ''a'')\<lparr>timeout := 100, given_out_counter := 0\<rparr>],
       proxy_queue = [''b'', ''a'']\<rparr>)
   \<and> return_proxy 50
     \<lparr>max_time_outs = 0, max_uses = 0, time_out_on_use = 0,
      proxy_dict = [''a'' \<mapsto> (ProxyData_init ''a'')\<lparr>banned := True, given_out_counter := 1\<rparr>,
                    ''b'' \<mapsto> ProxyData_init ''b''],
      proxy_queue = [''b'']\<rparr> ''a''
   = (Inr (),
      \<lparr>max_time_outs = 0, max_uses = 0, time_out_on_use = 0,
       proxy_dict = [''a'' \<mapsto> (ProxyData_init ''a'')\<lparr>banned := True, given_out_counter := 1\<rparr>,
                     ''b'' \<mapsto> ProxyData_init ''b'',
                     ''a'' \<mapsto> (ProxyData_init ''a'')\<lparr>banned := True, given_out_counter := 0\<rparr>],
       proxy_queue = [''b'']\<rparr>)"
proof -
  let ?dict1 = "[''a'' \<mapsto> (ProxyData_init ''a'')\<lparr>timeout := 100, given_out_counter := 1\<rparr>,
                 ''b'' \<mapsto> ProxyData_init ''b'']"
  let ?dict2 = "[''a'' \<mapsto> (ProxyData_init ''a'')\<lparr>banned := True, given_out_counter := 1\<rparr>,
                 ''b'' \<mapsto> ProxyData_init ''b'']"
  let ?pool1 = "\<lparr>max_time_outs = 0, max_uses = 0, time_out_on_use = 0,
      proxy_dict = ?dict1, proxy_queue = [''b'']\<rparr>"
  let ?pool2 = "\<lparr>max_time_outs = 0, max_uses = 0, time_out_on_use = 0,
      proxy_dict = ?dict2, proxy_queue = [''b'']\<rparr>"
  let ?d1 = "(ProxyData_init ''a'')\<lparr>timeout := 100, given_out_counter := 1\<rparr>"
  let ?d2 = "(ProxyData_init ''a'')\<lparr>banned := True, given_out_counter := 1\<rparr>"
  have a1: "proxy_dict ?pool1 ''a'' = Some ?d1" by simp
  have a2: "proxy_dict ?pool2 ''a'' = Some ?d2" by simp
  have u1: "proxy_url ?d1 = ''a''" by simp
  have u2: "proxy_url ?d2 = ''a''" by simp
  have s1: "set (proxy_queue ?pool1) \<subseteq> dom (proxy_dict ?pool1)" by simp
  have s2: "set (proxy_queue ?pool2) \<subseteq> dom (proxy_dict ?pool2)" by simp
  show ?thesis
    using return_proxy_requeues_iff_eligible [OF a1 u1 s1, of 50]
      return_proxy_requeues_iff_eligible [OF a2 u2 s2, of 50]
    by (simp add: Let_def eligible_def put_spec_def qualifies_def)
qed

text \<open>
  C7 as stated fails when the queue holds an identifier the registry does not know.
  The pool is built from \<open>["a", "b", "b"]\<close>; \<open>remove_proxy("b")\<close> leaves one \<open>b\<close>
  in the queue; \<open>get_proxy\<close> hands out \<open>a\<close>.  \<open>a\<close> is registered and eligible,
  yet \<open>return_proxy("a")\<close> raises \<open>UnknownProxy\<close> from the scan of \<open>put\<close> and \<open>a\<close>
  is not in the queue afterwards.
\<close>

theorem return_proxy_counterexample:
  "fst (get_proxy 0 None (snd (remove_proxy (ProxyPool_init [''a'', ''b'', ''b''] 0 0 0) ''b'')) None True)
     = Inr ''a''
   \<and> map_option (eligible (snd (get_proxy 0 None
          (snd (remove_proxy (ProxyPool_init [''a'', ''b'', ''b''] 0 0 0) ''b'')) None True)))
        (proxy_dict (snd (get_proxy 0 None
          (snd (remove_proxy (ProxyPool_init [''a'', ''b'', ''b''] 0 0 0) ''b'')) None True)) ''a'')
     = Some True
   \<and> fst (return_proxy 0 (snd (get_proxy 0 None
          (snd (remove_proxy (ProxyPool_init [''a'', ''b'', ''b''] 0 0 0) ''b'')) None True)) ''a'')
     = Inl (UnknownProxy ''b'')
   \<and> proxy_queue (snd (return_proxy 0 (snd (get_proxy 0 None
          (snd (remove_proxy (ProxyPool_init [''a'', ''b'', ''b''] 0 0 0) ''b'')) None True)) ''a''))
     = [''b'']"
proof -
  have g: "get_proxy 0 None (snd (remove_proxy (ProxyPool_init [''a'', ''b'', ''b''] 0 0 0) ''b'')) None True
     = (Inr ''a'', \<lparr>max_time_outs = 0, max_uses = 0, time_out_on_use = 0,
          proxy_dict = (map_of [(''a'', ProxyData_init ''a''), (''b'', ProxyData_init ''b''),
                                (''b'', ProxyData_init ''b'')])
                       (''b'' := None, ''a'' \<mapsto> (ProxyData_init ''a'')\<lparr>given_out_counter := 1\<rparr>),
          proxy_queue = [''b'']\<rparr>)"
    by (simp add: get_proxy.simps get_proxy_try_def popleft_def getitem_def modify_def
          remove_proxy_def dict_pop_def queue_remove_def ProxyPool_init_def is_timeout_def)
  show ?thesis
    unfolding g
    by (simp add: return_proxy_def put_def getitem_def eligible_def proxy_valid_to_give_def
          is_valid_def Let_def)
qed

text \<open>
  C10 (amended).  \<open>add_proxy\<close> of an identifier that is already registered, on a pool
  whose queued identifiers are all registered: the call returns normally; the
  registry maps the identifier to a fresh \<open>ProxyData\<close> (all three counters zero, not
  banned, \<open>timeout\<close> zero and so not in cooldown at any time from 0 on), which is
  eligible; and the identifier is in the queue, at the position \<open>put\<close> gives it.
\<close>

theorem add_proxy_existing_resets:
  assumes "proxy_dict pool p = Some d"
    and "set (proxy_queue pool) \<subseteq> dom (proxy_dict pool)"
  shows "(let pool1 = pool\<lparr>proxy_dict := (proxy_dict pool)(p \<mapsto> ProxyData_init p)\<rparr>
          in add_proxy pool p = (Inr (), pool1\<lparr>proxy_queue := put_spec pool1 (ProxyData_init p)\<rparr>)
             \<and> p \<in> set (put_spec pool1 (ProxyData_init p))
             \<and> eligible pool1 (ProxyData_init p))
       \<and> proxy_dict (snd (add_proxy pool p)) p = Some (ProxyData_init p)
       \<and> used_counter (ProxyData_init p) = 0
       \<and> timed_out_counter (ProxyData_init p) = 0
       \<and> given_out_counter (ProxyData_init p) = 0
       \<and> \<not> banned (ProxyData_init p)
       \<and> (\<forall>now\<ge>0. \<not> is_timeout now (ProxyData_init p))"
proof -
  let ?d1 = "ProxyData_init p"
  let ?pool1 = "pool\<lparr>proxy_dict := (proxy_dict pool)(p \<mapsto> ?d1)\<rparr>"
  have "set (remove1 (proxy_url ?d1) (proxy_queue ?pool1)) \<subseteq> set (proxy_queue pool)"
    using set_remove1_subset [of "proxy_url ?d1" "proxy_queue pool"] by simp
  with assms(2) have "set (remove1 (proxy_url ?d1) (proxy_queue ?pool1)) \<subseteq> dom (proxy_dict ?pool1)"
    by auto
  then have "put ?pool1 ?d1 = (Inr (), ?pool1\<lparr>proxy_queue := put_spec ?pool1 ?d1\<rparr>)"
    by (rule put_registered)
  then have r: "add_proxy pool p = (Inr (), ?pool1\<lparr>proxy_queue := put_spec ?pool1 ?d1\<rparr>)"
    by (simp add: add_proxy_def getitem_def Let_def)
  have m: "p \<in> set (put_spec ?pool1 ?d1)"
    by (simp add: set_put_spec)
  have e: "eligible ?pool1 ?d1"
    by (auto simp: eligible_def)
  from r m e show ?thesis
    by (simp add: Let_def is_timeout_def)
qed

theorem add_proxy_existing_resets_witness:
  "add_proxy
     \<lparr>max_time_outs = 0, max_uses = 1, time_out_on_use = 0,
      proxy_dict = [''b'' \<mapsto> ProxyData_init ''b'',
                    ''a'' \<mapsto> (ProxyData_init ''a'')\<lparr>banned := True, used_counter := 1\<rparr>],
      proxy_queue = [''b'']\<rparr> ''a''
   = (Inr (),
      \<lparr>max_time_outs = 0, max_uses = 1, time_out_on_use = 0,
       proxy_dict = [''b'' \<mapsto> ProxyData_init ''b'',
                     ''a'' \<mapsto> (ProxyData_init ''a'')\<lparr>banned := True, used_counter := 1\<rparr>,
                     ''a'' \<mapsto> ProxyData_init ''a''],
       proxy_queue = [''a'', ''b'']\<rparr>)"
proof -
  let ?d = "(ProxyData_init ''a'')\<lparr>banned := True, used_counter := 1\<rparr>"
  let ?pool = "\<lparr>max_time_outs = 0, max_uses = 1, time_out_on_use = 0,
      proxy_dict = [''b'' \<mapsto> ProxyData_init ''b'', ''a'' \<mapsto> ?d],
      proxy_queue = [''b'']\<rparr>"
  have h1: "proxy_dict ?pool ''a'' = Some ?d" by simp
  have h2: "set (proxy_queue ?pool) \<subseteq> dom (proxy_dict ?pool)" by simp
  show ?thesis
    using add_proxy_existing_resets [OF h1 h2]
    by (simp add: Let_def put_spec_def qualifies_def)
qed

text \<open>
  C10 as stated fails when the queue holds an identifier the registry does not know.
  The pool is built from \<open>["b", "b", "a"]\<close>; \<open>remove_proxy("b")\<close> leaves one \<open>b\<close>
  at the front of the queue; \<open>a\<close> is banned.  \<open>add_proxy("a")\<close> raises
  \<open>UnknownProxy\<close> from the scan of \<open>put\<close>, and \<open>a\<close> is not in the queue afterwards.
\<close>

theorem add_proxy_counterexample:
  "map_option banned (proxy_dict (snd (ban_proxy
       (snd (remove_proxy (ProxyPool_init [''b'', ''b'', ''a''] 0 0 0) ''b'')) ''a'')) ''a'')
     = Some True
   \<and> fst (add_proxy (snd (ban_proxy
       (snd (remove_proxy (ProxyPool_init [''b'', ''b'', ''a''] 0 0 0) ''b'')) ''a'')) ''a'')
     = Inl (UnknownProxy ''b'')
   \<and> proxy_queue (snd (add_proxy (snd (ban_proxy
       (snd (remove_proxy (ProxyPool_init [''b'', ''b'', ''a''] 0 0 0) ''b'')) ''a'')) ''a''))
     = [''b'']"
  by (simp add: add_proxy_def put_def getitem_def ban_proxy_def modify_def ban_def
        remove_proxy_def dict_pop_def queue_remove_def ProxyPool_init_def Let_def)

text \<open>
  C1.  \<open>get_proxy\<close> looks at the cooldown of the popped endpoint only.  Three pools
  of one endpoint \<open>a\<close>, each reached from the constructor by one public call:
  \<open>a\<close> banned; \<open>a\<close> used once under \<open>max_uses = 1\<close>; \<open>a\<close> timed out once (for 5
  seconds, at time 0) under \<open>max_time_outs = 1\<close>.  In each, \<open>get_proxy\<close> at time 10
  returns \<open>a\<close>, which is then still banned, or at its ceiling.
\<close>

theorem get_proxy_returns_banned:
  "fst (get_proxy 10 None (snd (ban_proxy (ProxyPool_init [''a''] 0 0 0) ''a'')) None True)
     = Inr ''a''
   \<and> map_option banned (proxy_dict (snd (get_proxy 10 None
        (snd (ban_proxy (ProxyPool_init [''a''] 0 0 0) ''a'')) None True)) ''a'')
     = Some True
   \<and> fst (get_proxy 10 None (snd (use_proxy 0 (ProxyPool_init [''a''] 0 1 0) ''a'')) None True)
     = Inr ''a''
   \<and> map_option used_counter (proxy_dict (snd (get_proxy 10 None
        (snd (use_proxy 0 (ProxyPool_init [''a''] 0 1 0) ''a'')) None True)) ''a'')
     = Some 1
   \<and> fst (get_proxy 10 None (snd (timeout_proxy 0 (ProxyPool_init [''a''] 1 0 0) ''a'' 5)) None True)
     = Inr ''a''
   \<and> map_option timed_out_counter (proxy_dict (snd (get_proxy 10 None
        (snd (timeout_proxy 0 (ProxyPool_init [''a''] 1 0 0) ''a'' 5)) None True)) ''a'')
     = Some 1"
  by (simp add: get_proxy.simps get_proxy_try_def popleft_def getitem_def modify_def
        ban_proxy_def ban_def use_proxy_def use_def timeout_proxy_def give_timeout_def
        ProxyPool_init_def is_timeout_def Let_def)

text \<open>
  C3.  A handle built for an identifier the caller names (\<open>pool.Proxy("a")\<close>) does
  not go through \<open>get_proxy\<close>, so \<open>given_out_counter\<close> is not incremented; its
  \<open>__del__\<close> calls \<open>return_proxy\<close> all the same.  On the pool built from \<open>["a"]\<close>,
  after the handle is built and deleted, \<open>given_out_counter\<close> of \<open>a\<close> is \<open>-1\<close>.
\<close>

theorem given_out_counter_negative:
  "(case pool_Proxy 1 None (ProxyPool_init [''a''] 0 0 0) (Some ''a'') of
      (Inr h, pool1) \<Rightarrow>
        map_option given_out_counter (proxy_dict (snd (Proxy_del 1 pool1 h)) ''a'')
    | (Inl e, pool1) \<Rightarrow> None) = Some (- 1)"
  by (simp add: pool_Proxy_def Proxy_init_def Proxy_del_def return_proxy_def put_def
        getitem_def proxy_valid_to_give_def is_valid_def ProxyPool_init_def Let_def)

text \<open>
  C8.  \<open>remove_proxy\<close> of an identifier the registry does not hold raises
  \<open>KeyError\<close>, the exception of \<open>dict.pop\<close>, and leaves the pool as it is; it does
  not raise \<open>UnknownProxy\<close>, which only \<open>__getitem__\<close> raises.
\<close>

theorem remove_proxy_unknown_KeyError:
  assumes "proxy_dict pool proxy = None"
  shows "remove_proxy pool proxy = (Inl (KeyError proxy), pool)"
  using assms by (simp add: remove_proxy_def dict_pop_def)

theorem remove_proxy_unknown_KeyError_witness:
  "remove_proxy (ProxyPool_init [''a''] 0 0 0) ''x''
     = (Inl (KeyError ''x''), ProxyPool_init [''a''] 0 0 0)"
proof -
  have h: "proxy_dict (ProxyPool_init [''a''] 0 0 0) ''x'' = None"
    by (simp add: ProxyPool_init_def)
  show ?thesis using remove_proxy_unknown_KeyError [OF h] .
qed

text \<open>
  C9.  \<open>_ProxyQueue.remove\<close> of an identifier that is not in the queue raises
  \<open>ValueError\<close> (the queue is left as it is).  So \<open>remove_proxy\<close> of a registered
  identifier that is not queued, as a checked-out one, raises \<open>ValueError\<close> after it
  has deleted the identifier from the registry.
\<close>

theorem queue_remove_absent_ValueError:
  assumes "item \<notin> set (proxy_queue pool)"
  shows "queue_remove pool item = (Inl ValueError, pool)
       \<and> (proxy_dict pool item \<noteq> None \<longrightarrow>
            remove_proxy pool item =
              (Inl ValueError, pool\<lparr>proxy_dict := (proxy_dict pool)(item := None)\<rparr>))"
  using assms by (auto simp: queue_remove_def remove_proxy_def dict_pop_def)

theorem queue_remove_absent_ValueError_witness:
  "fst (get_proxy 1 None (ProxyPool_init [''a''] 0 0 0) None True) = Inr ''a''
   \<and> fst (remove_proxy (snd (get_proxy 1 None (ProxyPool_init [''a''] 0 0 0) None True)) ''a'')
       = Inl ValueError
   \<and> fst (queue_remove (snd (get_proxy 1 None (ProxyPool_init [''a''] 0 0 0) None True)) ''a'')
       = Inl ValueError"
proof -
  have g: "get_proxy 1 None (ProxyPool_init [''a''] 0 0 0) None True
     = (Inr ''a'', \<lparr>max_time_outs = 0, max_uses = 0, time_out_on_use = 0,
          proxy_dict = [''a'' \<mapsto> (ProxyData_init ''a'')\<lparr>given_out_counter := 1\<rparr>],
          proxy_queue = []\<rparr>)"
    by (simp add: get_proxy.simps get_proxy_try_def popleft_def getitem_def modify_def
          ProxyPool_init_def is_timeout_def)
  let ?pool = "\<lparr>max_time_outs = 0, max_uses = 0, time_out_on_use = 0,
          proxy_dict = [''a'' \<mapsto> (ProxyData_init ''a'')\<lparr>given_out_counter := 1\<rparr>],
          proxy_queue = []\<rparr>"
  have h: "''a'' \<notin> set (proxy_queue ?pool)" by simp
  show ?thesis
    unfolding g using queue_remove_absent_ValueError [OF h] by simp
qed

end
